theory Spec2Isabelle
  imports Complex_Main "HOL-Library.Multiset"
begin

section \<open>JavaScript primitives used by the filter pipeline of App.tsx\<close>

text \<open>
  Strings are lists of 8-bit characters; the model covers ASCII text. A JavaScript
  number that may be a bound of a range filter is a value of \<open>jsnum\<close>: not-a-number, one
  of the two infinities, or a finite value. Finite values are exact rationals: every
  finite double is one. The pipeline compares them, adds and subtracts them (exact on
  integers below \<open>2 ^ 53\<close>) and divides once, for the average difficulty, where rounding
  the quotient to a double does not change its nearest integer for sums below \<open>2 ^ 52\<close>.
\<close>

datatype jsnum = NaN | NegInf | Fin rat | PosInf

text \<open>The relational operators \<open>>=\<close> and \<open><=\<close>: any comparison with NaN is false.\<close>

fun js_ge :: "jsnum \<Rightarrow> jsnum \<Rightarrow> bool" where
  "js_ge NaN _ = False"
| "js_ge _ NaN = False"
| "js_ge PosInf _ = True"
| "js_ge _ NegInf = True"
| "js_ge (Fin a) (Fin b) = (b \<le> a)"
| "js_ge (Fin a) PosInf = False"
| "js_ge NegInf _ = False"

fun js_le :: "jsnum \<Rightarrow> jsnum \<Rightarrow> bool" where
  "js_le NaN _ = False"
| "js_le _ NaN = False"
| "js_le NegInf _ = True"
| "js_le _ PosInf = True"
| "js_le (Fin a) (Fin b) = (a \<le> b)"
| "js_le (Fin a) NegInf = False"
| "js_le PosInf _ = False"

text \<open>White space as \<open>trim\<close>, \<open>\s\<close>, \<open>parseInt\<close> and \<open>parseFloat\<close> see it (ASCII part):
  tab, line feed, vertical tab, form feed, carriage return, space.\<close>

definition isWhiteSpace :: "char \<Rightarrow> bool" where
  "isWhiteSpace c = (let n = (of_char c :: nat) in (9 \<le> n \<and> n \<le> 13) \<or> n = 32)"

definition isDigit :: "char \<Rightarrow> bool" where
  "isDigit c = (let n = (of_char c :: nat) in 48 \<le> n \<and> n \<le> 57)"

text \<open>The value of a character as a digit of \<open>parseInt\<close>: \<open>0-9\<close>, then \<open>a-z\<close> or
  \<open>A-Z\<close> for 10 to 35; 36 stands for "no digit in any radix".\<close>

definition digitVal :: "char \<Rightarrow> nat" where
  "digitVal c = (let n = (of_char c :: nat) in
     if 48 \<le> n \<and> n \<le> 57 then n - 48
     else if 97 \<le> n \<and> n \<le> 122 then n - 87
     else if 65 \<le> n \<and> n \<le> 90 then n - 55
     else 36)"

definition digitsValue :: "nat \<Rightarrow> string \<Rightarrow> nat" where
  "digitsValue radix ds = foldl (\<lambda>a c. a * radix + digitVal c) 0 ds"

text \<open>\<open>String.prototype.toLowerCase\<close> on ASCII.\<close>

definition lowerChar :: "char \<Rightarrow> char" where
  "lowerChar c = (let n = (of_char c :: nat) in
     if 65 \<le> n \<and> n \<le> 90 then char_of (n + 32) else c)"

definition toLowerCase :: "string \<Rightarrow> string" where
  "toLowerCase s = map lowerChar s"

text \<open>\<open>s.includes(t)\<close>: \<open>t\<close> occurs in \<open>s\<close> as a contiguous substring; the empty
  string occurs in every string. (\<open>includes\<close> is a reserved word of Isabelle.)\<close>

fun startsWith :: "string \<Rightarrow> string \<Rightarrow> bool" where
  "startsWith _ [] = True"
| "startsWith [] (_ # _) = False"
| "startsWith (c # s) (d # t) = (c = d \<and> startsWith s t)"

fun includes_str :: "string \<Rightarrow> string \<Rightarrow> bool" where
  "includes_str [] t = (t = [])"
| "includes_str (c # s) t = (startsWith (c # s) t \<or> includes_str s t)"

text \<open>\<open>String.prototype.trim\<close>.\<close>

definition trim :: "string \<Rightarrow> string" where
  "trim s = rev (dropWhile isWhiteSpace (rev (dropWhile isWhiteSpace s)))"

text \<open>\<open>s.split(/\s+/)\<close>: the pieces of \<open>s\<close> between the maximal runs of white space. A
  run at the very start or end leaves an empty piece there, and a string without white
  space (the empty string too) is returned as the only piece. \<open>cur\<close> is the piece being
  read.\<close>

function split_ws_from :: "string \<Rightarrow> string \<Rightarrow> string list" where
  "split_ws_from cur [] = [cur]"
| "split_ws_from cur (c # cs) =
     (if isWhiteSpace c then cur # split_ws_from [] (dropWhile isWhiteSpace cs)
      else split_ws_from (cur @ [c]) cs)"
  by pat_completeness auto
termination
  by (relation "measure (\<lambda>(cur, s). length s)")
     (auto simp: length_dropWhile_le less_Suc_eq_le)

definition split_ws :: "string \<Rightarrow> string list" where
  "split_ws s = split_ws_from [] s"

text \<open>\<open>s.replace(/,/g, '')\<close>.\<close>

definition removeCommas :: "string \<Rightarrow> string" where
  "removeCommas s = filter (\<lambda>c. c \<noteq> CHR '','') s"

text \<open>
  \<open>parseInt(s)\<close> with no radix: skip leading white space, read an optional sign, take
  radix 16 after a \<open>0x\<close> or \<open>0X\<close> prefix and radix 10 otherwise, and read the longest run
  of digits of that radix. No digit gives NaN. The result is the exact integer (JavaScript
  rounds it to a double above \<open>2 ^ 53\<close>).
\<close>

definition parseInt :: "string \<Rightarrow> jsnum" where
  "parseInt s =
     (let s1 = dropWhile isWhiteSpace s;
          neg = startsWith s1 ''-'';
          s2 = (if startsWith s1 ''-'' \<or> startsWith s1 ''+'' then tl s1 else s1);
          hex = (startsWith s2 ''0x'' \<or> startsWith s2 ''0X'');
          radix = (if hex then 16 else 10);
          s3 = (if hex then drop 2 s2 else s2);
          ds = takeWhile (\<lambda>c. digitVal c < radix) s3
      in if ds = [] then NaN
         else Fin (of_int ((if neg then - 1 else 1) * int (digitsValue radix ds))))"

text \<open>
  \<open>parseFloat(s)\<close>: skip leading white space and read the longest prefix that is a
  decimal literal: an optional sign, then \<open>Infinity\<close> or digits with an optional fraction
  and an optional exponent. No such prefix gives NaN. The result is the exact decimal
  value (JavaScript rounds it to the nearest double).
\<close>

definition parseExponent :: "string \<Rightarrow> int" where
  "parseExponent s =
     (if startsWith s ''e'' \<or> startsWith s ''E'' then
        (let s1 = tl s;
             neg = startsWith s1 ''-'';
             s2 = (if startsWith s1 ''-'' \<or> startsWith s1 ''+'' then tl s1 else s1);
             ds = takeWhile isDigit s2
         in (if neg then - 1 else 1) * int (digitsValue 10 ds))
      else 0)"

definition parseFloat :: "string \<Rightarrow> jsnum" where
  "parseFloat s =
     (let s1 = dropWhile isWhiteSpace s;
          neg = startsWith s1 ''-'';
          s2 = (if startsWith s1 ''-'' \<or> startsWith s1 ''+'' then tl s1 else s1);
          ip = takeWhile isDigit s2;
          s3 = dropWhile isDigit s2;
          fp = (if startsWith s3 ''.'' then takeWhile isDigit (tl s3) else []);
          s4 = (if startsWith s3 ''.'' then dropWhile isDigit (tl s3) else s3);
          e = parseExponent s4;
          m = of_nat (digitsValue 10 ip) + of_nat (digitsValue 10 fp) / 10 ^ length fp;
          v = (if 0 \<le> e then m * 10 ^ nat e else m / 10 ^ nat (- e))
      in if startsWith s2 ''Infinity'' then (if neg then NegInf else PosInf)
         else if ip = [] \<and> fp = [] then NaN
         else Fin (if neg then - v else v))"

text \<open>\<open>Math.round\<close>: the nearest integer, a tie going towards \<open>+\<infinity>\<close>.\<close>

definition Math_round :: "rat \<Rightarrow> int" where
  "Math_round x = \<lfloor>x + 1 / 2\<rfloor>"


section \<open>The record model and the filter state\<close>

text \<open>
  \<open>interface Keyword\<close>. The three numeric fields are written by the CSV import as
  \<open>parseInt(..) || 0\<close> and \<open>parseFloat(..) || 0\<close>, which never stores NaN; they are
  finite numbers here. \<open>volume\<close> stays the display string.
\<close>

record Keyword =
  keyword :: string
  intent :: string
  volume :: string
  kd :: rat
  cpc :: rat
  trafficPotential :: rat
  parentKeyword :: string

datatype FilterType = MatchAll | MatchAny

text \<open>\<open>interface KeywordFilter\<close>, with \<open>filterKeywords\<close> for its field \<open>keywords\<close> (a
  reserved word of Isabelle).\<close>

record KeywordFilter =
  type :: FilterType
  filterKeywords :: "string list"

record SelectedIntents =
  informational :: bool
  transactional :: bool
  commercial :: bool
  navigational :: bool

datatype SortField = SortVolume | SortKD | SortCPC | SortTrafficPotential

datatype SortDirection = Asc | Desc

text \<open>The state variables of \<open>App\<close> that the filter reads; the ten range bounds are the
  raw strings of the input fields.\<close>

record FilterState =
  minVolume :: string
  maxVolume :: string
  minKD :: string
  maxKD :: string
  minCPC :: string
  maxCPC :: string
  minWordCount :: string
  maxWordCount :: string
  minTrafficPotential :: string
  maxTrafficPotential :: string
  selectedIntents :: SelectedIntents
  includeFilter :: KeywordFilter
  excludeFilter :: KeywordFilter

text \<open>The initial state of \<open>App\<close>: every \<open>useState\<close> default.\<close>

definition initialFilterState :: FilterState where
  "initialFilterState =
     \<lparr>minVolume = [], maxVolume = [], minKD = [], maxKD = [], minCPC = [], maxCPC = [],
      minWordCount = [], maxWordCount = [],
      minTrafficPotential = [], maxTrafficPotential = [],
      selectedIntents = \<lparr>informational = False, transactional = False,
                         commercial = False, navigational = False\<rparr>,
      includeFilter = \<lparr>type = MatchAll, filterKeywords = []\<rparr>,
      excludeFilter = \<lparr>type = MatchAll, filterKeywords = []\<rparr>\<rparr>"

section \<open>The filter\<close>

text \<open>\<open>getWordCount\<close>: \<open>keyword.trim().split(/\s+/).length\<close>.\<close>

definition getWordCount :: "string \<Rightarrow> nat" where
  "getWordCount k = length (split_ws (trim k))"

text \<open>\<open>parseInt(v.replace(/,/g, '')) || 0\<close>, as the filter, the comparator and the total
  all compute it: NaN and 0 are falsy and give 0.\<close>

definition parseVolume :: "string \<Rightarrow> rat" where
  "parseVolume v = (case parseInt (removeCommas v) of Fin n \<Rightarrow> n | _ \<Rightarrow> 0)"

text \<open>The bounds: a non-empty string is truthy and is parsed, the empty string gives the
  infinity.\<close>

definition minVol :: "FilterState \<Rightarrow> jsnum" where
  "minVol fs = (if minVolume fs \<noteq> [] then parseInt (minVolume fs) else NegInf)"

definition maxVol :: "FilterState \<Rightarrow> jsnum" where
  "maxVol fs = (if maxVolume fs \<noteq> [] then parseInt (maxVolume fs) else PosInf)"

definition minKDVal :: "FilterState \<Rightarrow> jsnum" where
  "minKDVal fs = (if minKD fs \<noteq> [] then parseInt (minKD fs) else NegInf)"

definition maxKDVal :: "FilterState \<Rightarrow> jsnum" where
  "maxKDVal fs = (if maxKD fs \<noteq> [] then parseInt (maxKD fs) else PosInf)"

definition minCPCVal :: "FilterState \<Rightarrow> jsnum" where
  "minCPCVal fs = (if minCPC fs \<noteq> [] then parseFloat (minCPC fs) else NegInf)"

definition maxCPCVal :: "FilterState \<Rightarrow> jsnum" where
  "maxCPCVal fs = (if maxCPC fs \<noteq> [] then parseFloat (maxCPC fs) else PosInf)"

definition minWords :: "FilterState \<Rightarrow> jsnum" where
  "minWords fs = (if minWordCount fs \<noteq> [] then parseInt (minWordCount fs) else NegInf)"

definition maxWords :: "FilterState \<Rightarrow> jsnum" where
  "maxWords fs = (if maxWordCount fs \<noteq> [] then parseInt (maxWordCount fs) else PosInf)"

definition minTraffic :: "FilterState \<Rightarrow> jsnum" where
  "minTraffic fs =
     (if minTrafficPotential fs \<noteq> [] then parseInt (minTrafficPotential fs) else NegInf)"

definition maxTraffic :: "FilterState \<Rightarrow> jsnum" where
  "maxTraffic fs =
     (if maxTrafficPotential fs \<noteq> [] then parseInt (maxTrafficPotential fs) else PosInf)"

text \<open>\<open>Object.values(selectedIntents).some(value => value)\<close>.\<close>

definition anyIntentSelected :: "SelectedIntents \<Rightarrow> bool" where
  "anyIntentSelected si =
     list_ex (\<lambda>v. v) [informational si, transactional si, commercial si, navigational si]"

definition intentMatch :: "SelectedIntents \<Rightarrow> Keyword \<Rightarrow> bool" where
  "intentMatch si k =
     (\<not> anyIntentSelected si \<or>
      ((informational si \<and> includes_str (intent k) ''I'') \<or>
       (transactional si \<and> includes_str (intent k) ''T'') \<or>
       (commercial si \<and> includes_str (intent k) ''C'') \<or>
       (navigational si \<and> includes_str (intent k) ''N'')))"

text \<open>The test both text filters apply to one term.\<close>

definition containsTerm :: "Keyword \<Rightarrow> string \<Rightarrow> bool" where
  "containsTerm k t = includes_str (toLowerCase (keyword k)) (toLowerCase t)"

definition includeMatch :: "KeywordFilter \<Rightarrow> Keyword \<Rightarrow> bool" where
  "includeMatch f k =
     (length (filterKeywords f) = 0 \<or>
      (if type f = MatchAll then list_all (containsTerm k) (filterKeywords f)
       else list_ex (containsTerm k) (filterKeywords f)))"

definition excludeMatch :: "KeywordFilter \<Rightarrow> Keyword \<Rightarrow> bool" where
  "excludeMatch f k =
     (length (filterKeywords f) = 0 \<or>
      (if type f = MatchAll then \<not> list_all (containsTerm k) (filterKeywords f)
       else \<not> list_ex (containsTerm k) (filterKeywords f)))"

text \<open>The callback of \<open>keywords.filter\<close>: the conjunction it returns, in its order.\<close>

definition keepKeyword :: "FilterState \<Rightarrow> Keyword \<Rightarrow> bool" where
  "keepKeyword fs k =
     (js_ge (Fin (parseVolume (volume k))) (minVol fs) \<and>
      js_le (Fin (parseVolume (volume k))) (maxVol fs) \<and>
      js_ge (Fin (kd k)) (minKDVal fs) \<and>
      js_le (Fin (kd k)) (maxKDVal fs) \<and>
      js_ge (Fin (cpc k)) (minCPCVal fs) \<and>
      js_le (Fin (cpc k)) (maxCPCVal fs) \<and>
      js_ge (Fin (of_nat (getWordCount (keyword k)))) (minWords fs) \<and>
      js_le (Fin (of_nat (getWordCount (keyword k)))) (maxWords fs) \<and>
      js_ge (Fin (trafficPotential k)) (minTraffic fs) \<and>
      js_le (Fin (trafficPotential k)) (maxTraffic fs) \<and>
      intentMatch (selectedIntents fs) k \<and>
      includeMatch (includeFilter fs) k \<and>
      excludeMatch (excludeFilter fs) k)"

definition filteredKeywords :: "FilterState \<Rightarrow> Keyword list \<Rightarrow> Keyword list" where
  "filteredKeywords fs ks = filter (keepKeyword fs) ks"

section \<open>Sorting and the summary values\<close>

text \<open>\<open>a[sortField]\<close> for the three numeric fields. The comparator reads it only when
  the field is not \<open>volume\<close>, so the value given for \<open>SortVolume\<close> is never used.\<close>

fun numericField :: "SortField \<Rightarrow> Keyword \<Rightarrow> rat" where
  "numericField SortKD a = kd a"
| "numericField SortCPC a = cpc a"
| "numericField SortTrafficPotential a = trafficPotential a"
| "numericField SortVolume a = 0"

text \<open>The comparator given to \<open>sort\<close>; \<open>sortField\<close> is \<open>None\<close> for \<open>null\<close>.\<close>

definition compareKeywords ::
  "SortField option \<Rightarrow> SortDirection \<Rightarrow> Keyword \<Rightarrow> Keyword \<Rightarrow> rat" where
  "compareKeywords sortField sortDirection a b =
     (case sortField of
        None \<Rightarrow> 0
      | Some f \<Rightarrow>
          (let comparison =
                 (if f = SortVolume then parseVolume (volume a) - parseVolume (volume b)
                  else numericField f a - numericField f b)
           in if sortDirection = Asc then comparison else - comparison))"

text \<open>
  \<open>Array.prototype.sort\<close> with a comparator is a stable sort (ECMAScript 2019): an
  element goes before another when the comparator is negative, after it when positive,
  and elements that compare 0 keep their order. It is modelled by insertion from the
  right, each element going in front of the first one it does not compare greater than.
\<close>

fun insertBy :: "('a \<Rightarrow> 'a \<Rightarrow> rat) \<Rightarrow> 'a \<Rightarrow> 'a list \<Rightarrow> 'a list" where
  "insertBy cmp x [] = [x]"
| "insertBy cmp x (y # ys) = (if cmp x y \<le> 0 then x # y # ys else y # insertBy cmp x ys)"

definition array_sort :: "('a \<Rightarrow> 'a \<Rightarrow> rat) \<Rightarrow> 'a list \<Rightarrow> 'a list" where
  "array_sort cmp xs = foldr (insertBy cmp) xs []"

definition sortedKeywords ::
  "SortField option \<Rightarrow> SortDirection \<Rightarrow> Keyword list \<Rightarrow> Keyword list" where
  "sortedKeywords sortField sortDirection filtered =
     array_sort (compareKeywords sortField sortDirection) filtered"

text \<open>\<open>reduce\<close> is a left fold from the initial value 0.\<close>

definition totalVolume :: "Keyword list \<Rightarrow> rat" where
  "totalVolume filtered = foldl (\<lambda>sum item. sum + parseVolume (volume item)) 0 filtered"

definition averageKD :: "Keyword list \<Rightarrow> int" where
  "averageKD filtered =
     (if length filtered > 0
      then Math_round (foldl (\<lambda>sum item. sum + kd item) 0 filtered / of_nat (length filtered))
      else 0)"


section \<open>Notions of the specification, to compare the code with\<close>

text \<open>The selected intent codes as the specification has them: a collection of the
  letters I, T, C, N.\<close>

definition spec_selectedCodes :: "SelectedIntents \<Rightarrow> char list" where
  "spec_selectedCodes si =
     (if informational si then ''I'' else []) @ (if transactional si then ''T'' else []) @
     (if commercial si then ''C'' else []) @ (if navigational si then ''N'' else [])"

text \<open>A range bound as the specification has it: an optional number, \<open>None\<close> when the
  bound is unset. \<open>spec_parsable\<close> says that the input string is empty (unset) or parses
  to a finite number.\<close>

definition spec_parsable :: "(string \<Rightarrow> jsnum) \<Rightarrow> string \<Rightarrow> bool" where
  "spec_parsable parse s = (s = [] \<or> (case parse s of Fin _ \<Rightarrow> True | _ \<Rightarrow> False))"

definition spec_bound :: "(string \<Rightarrow> jsnum) \<Rightarrow> string \<Rightarrow> rat option" where
  "spec_bound parse s =
     (if s = [] then None else (case parse s of Fin a \<Rightarrow> Some a | _ \<Rightarrow> None))"

text \<open>\<open>min \<le> value \<le> max\<close>, an unset bound acting as minus or plus infinity.\<close>

definition spec_inRange :: "rat option \<Rightarrow> rat \<Rightarrow> rat option \<Rightarrow> bool" where
  "spec_inRange mn v mx =
     ((case mn of None \<Rightarrow> True | Some a \<Rightarrow> a \<le> v) \<and>
      (case mx of None \<Rightarrow> True | Some b \<Rightarrow> v \<le> b))"

text \<open>A filter state with every dimension inactive: the ten bounds unset, no intent
  selected, no include and no exclude term; the modes of the two text filters are free.\<close>

definition spec_emptyFilter :: "FilterState \<Rightarrow> bool" where
  "spec_emptyFilter fs =
     (minVolume fs = [] \<and> maxVolume fs = [] \<and> minKD fs = [] \<and> maxKD fs = [] \<and>
      minCPC fs = [] \<and> maxCPC fs = [] \<and> minWordCount fs = [] \<and> maxWordCount fs = [] \<and>
      minTrafficPotential fs = [] \<and> maxTrafficPotential fs = [] \<and>
      \<not> informational (selectedIntents fs) \<and> \<not> transactional (selectedIntents fs) \<and>
      \<not> commercial (selectedIntents fs) \<and> \<not> navigational (selectedIntents fs) \<and>
      filterKeywords (includeFilter fs) = [] \<and> filterKeywords (excludeFilter fs) = [])"

text \<open>The white-space-delimited tokens of a string: its maximal runs of characters that
  are not white space.\<close>

function spec_tokens :: "string \<Rightarrow> string list" where
  "spec_tokens [] = []"
| "spec_tokens (c # cs) =
     (if isWhiteSpace c then spec_tokens cs
      else takeWhile (\<lambda>d. \<not> isWhiteSpace d) (c # cs) #
           spec_tokens (dropWhile (\<lambda>d. \<not> isWhiteSpace d) cs))"
  by pat_completeness auto
termination
  by (relation "measure length") (auto simp: length_dropWhile_le less_Suc_eq_le)

text \<open>The number a record is sorted by, for each sort field.\<close>

fun spec_sortValue :: "SortField \<Rightarrow> Keyword \<Rightarrow> rat" where
  "spec_sortValue SortVolume a = parseVolume (volume a)"
| "spec_sortValue SortKD a = kd a"
| "spec_sortValue SortCPC a = cpc a"
| "spec_sortValue SortTrafficPotential a = trafficPotential a"

section \<open>Sample data\<close>

text \<open>A record and a selection of intents on which the theorems below are instantiated.\<close>

definition sampleKeyword :: Keyword where
  "sampleKeyword =
     \<lparr>keyword = ''Free TRIAL Offer'', intent = ''T,C'', volume = ''1,200'', kd = 10,
      cpc = 3 / 2, trafficPotential = 900, parentKeyword = ''offer''\<rparr>"

definition sampleIntents :: SelectedIntents where
  "sampleIntents =
     \<lparr>informational = True, transactional = False, commercial = True, navigational = False\<rparr>"

text \<open>A filter state whose bounds are met with equality by the sample record, and a
  collection of three records.\<close>

definition sampleRanges :: FilterState where
  "sampleRanges = initialFilterState\<lparr>minVolume := ''1200'', maxVolume := ''1200'',
     minKD := ''10'', maxCPC := ''1.5'', minWordCount := ''3'', maxWordCount := ''3'',
     maxTrafficPotential := ''900''\<rparr>"

definition sampleList :: "Keyword list" where
  "sampleList =
     [sampleKeyword\<lparr>keyword := ''a'', kd := 10\<rparr>, sampleKeyword\<lparr>keyword := ''b'', kd := 15\<rparr>,
      sampleKeyword\<lparr>keyword := ''c'', kd := 10, volume := ''n/a''\<rparr>]"

text \<open>Filter states with every dimension inactive and a text filter in mode ANY, and a
  collection whose volumes are display strings.\<close>

definition sampleUnset :: FilterState where
  "sampleUnset = initialFilterState\<lparr>includeFilter := \<lparr>type = MatchAny, filterKeywords = []\<rparr>\<rparr>"

definition sampleUnsetAny :: FilterState where
  "sampleUnsetAny = sampleUnset\<lparr>excludeFilter := \<lparr>type = MatchAny, filterKeywords = []\<rparr>\<rparr>"

definition sampleVolumes :: "Keyword list" where
  "sampleVolumes =
     [sampleKeyword\<lparr>keyword := ''a'', volume := ''1,200''\<rparr>,
      sampleKeyword\<lparr>keyword := ''b'', volume := ''900''\<rparr>,
      sampleKeyword\<lparr>keyword := ''c'', volume := ''n/a''\<rparr>,
      sampleKeyword\<lparr>keyword := ''d'', volume := ''1,200''\<rparr>]"

section \<open>Facts about the string primitives\<close>

lemma startsWith_iff: "startsWith s t = (\<exists>q. s = t @ q)"
  by (induction s t rule: startsWith.induct) auto

lemma includes_str_iff: "includes_str s t = (\<exists>p q. s = p @ t @ q)"
proof (induction s)
  case Nil
  then show ?case by simp
next
  case (Cons c s)
  show ?case
  proof
    assume "includes_str (c # s) t"
    then consider "startsWith (c # s) t" | "includes_str s t" by auto
    then show "\<exists>p q. c # s = p @ t @ q"
    proof cases
      case 1
      then obtain q where "c # s = t @ q" unfolding startsWith_iff ..
      then have "c # s = [] @ t @ q" by simp
      then show ?thesis by blast
    next
      case 2
      then obtain p q where "s = p @ t @ q" using Cons.IH by blast
      then have "c # s = (c # p) @ t @ q" by simp
      then show ?thesis by blast
    qed
  next
    assume "\<exists>p q. c # s = p @ t @ q"
    then obtain p q where pq: "c # s = p @ t @ q" by blast
    show "includes_str (c # s) t"
    proof (cases p)
      case Nil
      with pq have "startsWith (c # s) t" unfolding startsWith_iff by auto
      then show ?thesis by simp
    next
      case (Cons d p')
      with pq have "s = p' @ t @ q" by simp
      then have "includes_str s t" using Cons.IH by blast
      then show ?thesis by simp
    qed
  qed
qed

lemma includes_str_single: "includes_str s [c] = (c \<in> set s)"
  by (induction s) auto

lemma lower_examples:
  "toLowerCase ''free'' = ''free''" "toLowerCase ''trial'' = ''trial''"
  "toLowerCase ''free trial offer'' = ''free trial offer''"
  "toLowerCase ''free offer'' = ''free offer''"
  "toLowerCase ''seo'' = ''seo''" "toLowerCase ''tool'' = ''tool''"
  "toLowerCase ''best seo tool'' = ''best seo tool''"
  "toLowerCase ''seo guide'' = ''seo guide''"
  "toLowerCase ''Free TRIAL Offer'' = ''free trial offer''"
  "toLowerCase ''Best SEO Tool'' = ''best seo tool''"
  "toLowerCase ''pricing page'' = ''pricing page''"
  by code_simp+

lemma parse_examples:
  "parseInt ''.5'' = NaN" "parseInt ''1200'' = Fin 1200" "parseInt ''10'' = Fin 10"
  "parseInt ''3'' = Fin 3" "parseInt ''900'' = Fin 900" "parseInt ''1000'' = Fin 1000"
  "parseFloat ''1.5'' = Fin (3 / 2)" "parseFloat ''0.5'' = Fin (1 / 2)"
  "parseInt ''abc'' = NaN" "parseFloat ''-'' = NaN"
  "parseFloat ''.5'' = Fin (1 / 2)" "parseInt ''-.5'' = NaN" "parseInt ''1'' = Fin 1"
  "parseInt ''0'' = Fin 0" "parseInt [] = NaN"
  "parseInt ''10.7'' = Fin 10" "parseInt ''1e3'' = Fin 1" "parseFloat ''1e3'' = Fin 1000"
  by (simp_all add: parseInt_def parseFloat_def parseExponent_def isWhiteSpace_def
      isDigit_def digitVal_def digitsValue_def)

lemma parseVolume_examples:
  "parseVolume ''1,200'' = 1200" "parseVolume ''n/a'' = 0" "parseVolume '''' = 0"
  "parseVolume ''1,000,000'' = 1000000" "parseVolume ''900'' = 900"
  by (simp_all add: parseVolume_def removeCommas_def parseInt_def isWhiteSpace_def
      digitVal_def digitsValue_def)

lemma sampleKeyword_values:
  "parseVolume (volume sampleKeyword) = 1200" "getWordCount (keyword sampleKeyword) = 3"
  by (simp_all add: sampleKeyword_def parseVolume_def removeCommas_def parseInt_def isWhiteSpace_def
      digitVal_def digitsValue_def getWordCount_def trim_def split_ws_def)

section \<open>The empty filter state\<close>

lemma initial_bounds:
  "minVol initialFilterState = NegInf" "maxVol initialFilterState = PosInf"
  "minKDVal initialFilterState = NegInf" "maxKDVal initialFilterState = PosInf"
  "minCPCVal initialFilterState = NegInf" "maxCPCVal initialFilterState = PosInf"
  "minWords initialFilterState = NegInf" "maxWords initialFilterState = PosInf"
  "minTraffic initialFilterState = NegInf" "maxTraffic initialFilterState = PosInf"
  by (simp_all add: initialFilterState_def minVol_def maxVol_def minKDVal_def maxKDVal_def
      minCPCVal_def maxCPCVal_def minWords_def maxWords_def minTraffic_def maxTraffic_def)

lemma initial_text_dims:
  "intentMatch (selectedIntents initialFilterState) k"
  "includeMatch (includeFilter initialFilterState) k"
  "excludeMatch (excludeFilter initialFilterState) k"
  by (simp_all add: initialFilterState_def intentMatch_def anyIntentSelected_def
      includeMatch_def excludeMatch_def)

lemma keepKeyword_initial: "keepKeyword initialFilterState k"
  by (simp add: keepKeyword_def initial_bounds initial_text_dims)

lemma keepKeyword_no_ranges:
  assumes "minVolume fs = []" and "maxVolume fs = []" and "minKD fs = []" and "maxKD fs = []"
    and "minCPC fs = []" and "maxCPC fs = []" and "minWordCount fs = []"
    and "maxWordCount fs = []" and "minTrafficPotential fs = []"
    and "maxTrafficPotential fs = []"
  shows "keepKeyword fs k =
     (intentMatch (selectedIntents fs) k \<and> includeMatch (includeFilter fs) k \<and>
      excludeMatch (excludeFilter fs) k)"
  by (simp add: keepKeyword_def assms minVol_def maxVol_def minKDVal_def maxKDVal_def
      minCPCVal_def maxCPCVal_def minWords_def maxWords_def minTraffic_def maxTraffic_def)

lemma keepKeyword_dims:
  "keepKeyword fs k \<Longrightarrow>
     intentMatch (selectedIntents fs) k \<and> includeMatch (includeFilter fs) k \<and>
     excludeMatch (excludeFilter fs) k"
  by (simp add: keepKeyword_def)

lemma keepKeyword_unset: "spec_emptyFilter fs \<Longrightarrow> keepKeyword fs k"
  by (simp add: spec_emptyFilter_def keepKeyword_no_ranges intentMatch_def
      anyIntentSelected_def includeMatch_def excludeMatch_def)

text \<open>
  C4. With a filter state in which every dimension is inactive (all ten bounds unset, no
  intent selected, no include and no exclude term, whatever the modes of the two text
  filters) every record passes, so filtering a collection returns it unchanged, in its
  order. The initial state of \<open>App\<close> is one such state.
\<close>

theorem empty_filter_is_identity:
  "spec_emptyFilter fs \<Longrightarrow> keepKeyword fs k \<and> filteredKeywords fs ks = ks"
  by (simp add: keepKeyword_unset filteredKeywords_def)

theorem empty_filter_is_identity_witness:
  "spec_emptyFilter initialFilterState \<and> spec_emptyFilter sampleUnset \<and>
   spec_emptyFilter sampleUnsetAny \<and>
   type (includeFilter sampleUnset) = MatchAny \<and> type (excludeFilter sampleUnset) = MatchAll \<and>
   type (excludeFilter sampleUnsetAny) = MatchAny \<and>
   keepKeyword initialFilterState sampleKeyword \<and>
   keepKeyword sampleUnset sampleKeyword \<and>
   keepKeyword sampleUnsetAny sampleKeyword \<and>
   filteredKeywords sampleUnset [sampleKeyword, sampleKeyword\<lparr>keyword := []\<rparr>] =
     [sampleKeyword, sampleKeyword\<lparr>keyword := []\<rparr>]"
proof -
  have a: "spec_emptyFilter initialFilterState" "spec_emptyFilter sampleUnset"
    "spec_emptyFilter sampleUnsetAny"
    by (simp_all add: spec_emptyFilter_def sampleUnset_def sampleUnsetAny_def
        initialFilterState_def)
  have b: "type (includeFilter sampleUnset) = MatchAny"
    "type (excludeFilter sampleUnset) = MatchAll"
    "type (excludeFilter sampleUnsetAny) = MatchAny"
    by (simp_all add: sampleUnset_def sampleUnsetAny_def initialFilterState_def)
  show ?thesis
    using empty_filter_is_identity [OF a(1), of sampleKeyword "[]"]
      empty_filter_is_identity [OF a(2), of sampleKeyword
        "[sampleKeyword, sampleKeyword\<lparr>keyword := []\<rparr>]"]
      empty_filter_is_identity [OF a(3), of sampleKeyword "[]"]
    by (simp add: a b)
qed

section \<open>The text filters\<close>

lemma containsTerm_iff:
  "containsTerm k t = (\<exists>p q. toLowerCase (keyword k) = p @ toLowerCase t @ q)"
  by (simp add: containsTerm_def includes_str_iff)

text \<open>
  C1. With exclude mode ALL and a non-empty term list, the exclude dimension rejects a
  record exactly when every term is a substring of the keyword, both in lower case; a
  record that has only some of the terms passes it. With the terms "free" and "trial",
  the keyword "free trial offer" is rejected and "free offer" is not. A record that the
  exclude dimension rejects is rejected by the filter.
\<close>

theorem exclude_all_rejects_iff_every_term_present:
  "(ts \<noteq> [] \<longrightarrow>
      (\<not> excludeMatch \<lparr>type = MatchAll, filterKeywords = ts\<rparr> k) =
      (\<forall>t\<in>set ts. \<exists>p q. toLowerCase (keyword k) = p @ toLowerCase t @ q)) \<and>
   \<not> excludeMatch \<lparr>type = MatchAll, filterKeywords = [''free'', ''trial'']\<rparr>
        (k\<lparr>keyword := ''free trial offer''\<rparr>) \<and>
   excludeMatch \<lparr>type = MatchAll, filterKeywords = [''free'', ''trial'']\<rparr>
        (k\<lparr>keyword := ''free offer''\<rparr>) \<and>
   (\<not> excludeMatch (excludeFilter fs) k \<longrightarrow> \<not> keepKeyword fs k)"
proof (intro conjI impI)
  assume "ts \<noteq> []"
  then show "(\<not> excludeMatch \<lparr>type = MatchAll, filterKeywords = ts\<rparr> k) =
      (\<forall>t\<in>set ts. \<exists>p q. toLowerCase (keyword k) = p @ toLowerCase t @ q)"
    by (simp add: excludeMatch_def list_all_iff containsTerm_iff)
next
  show "\<not> excludeMatch \<lparr>type = MatchAll, filterKeywords = [''free'', ''trial'']\<rparr>
        (k\<lparr>keyword := ''free trial offer''\<rparr>)"
    by (simp add: excludeMatch_def containsTerm_def lower_examples)
next
  show "excludeMatch \<lparr>type = MatchAll, filterKeywords = [''free'', ''trial'']\<rparr>
        (k\<lparr>keyword := ''free offer''\<rparr>)"
    by (simp add: excludeMatch_def containsTerm_def lower_examples)
next
  assume "\<not> excludeMatch (excludeFilter fs) k"
  then show "\<not> keepKeyword fs k" using keepKeyword_dims by blast
qed

theorem exclude_all_rejects_iff_every_term_present_witness:
  "[''free'', ''trial''] \<noteq> [] \<and>
   \<not> excludeMatch \<lparr>type = MatchAll, filterKeywords = [''free'', ''trial'']\<rparr> sampleKeyword \<and>
   (\<exists>p q. toLowerCase (keyword sampleKeyword) = p @ toLowerCase ''free'' @ q) \<and>
   (\<exists>p q. toLowerCase (keyword sampleKeyword) = p @ toLowerCase ''trial'' @ q) \<and>
   \<not> keepKeyword (initialFilterState\<lparr>excludeFilter := \<lparr>type = MatchAll, filterKeywords = [''free'', ''trial'']\<rparr>\<rparr>) sampleKeyword"
proof -
  have e: "\<not> excludeMatch \<lparr>type = MatchAll, filterKeywords = [''free'', ''trial'']\<rparr> sampleKeyword"
    by (simp add: excludeMatch_def containsTerm_def sampleKeyword_def lower_examples)
  from e show ?thesis
    using exclude_all_rejects_iff_every_term_present
      [of "[''free'', ''trial'']" sampleKeyword
          "initialFilterState\<lparr>excludeFilter := \<lparr>type = MatchAll, filterKeywords = [''free'', ''trial'']\<rparr>\<rparr>"]
    by simp
qed

text \<open>
  C6. With a non-empty term list the include dimension passes a record exactly when, as
  substrings of the keyword in lower case, every term occurs (mode ALL) or at least one
  term occurs (mode ANY); with no terms it passes every record. Mode ALL with the terms
  "seo" and "tool" passes "best seo tool" and fails "seo guide". A record that the filter
  keeps passes the include dimension.
\<close>

theorem include_all_any:
  "(ts \<noteq> [] \<longrightarrow>
      includeMatch \<lparr>type = MatchAll, filterKeywords = ts\<rparr> k =
      (\<forall>t\<in>set ts. \<exists>p q. toLowerCase (keyword k) = p @ toLowerCase t @ q)) \<and>
   (ts \<noteq> [] \<longrightarrow>
      includeMatch \<lparr>type = MatchAny, filterKeywords = ts\<rparr> k =
      (\<exists>t\<in>set ts. \<exists>p q. toLowerCase (keyword k) = p @ toLowerCase t @ q)) \<and>
   includeMatch \<lparr>type = m, filterKeywords = []\<rparr> k \<and>
   includeMatch \<lparr>type = MatchAll, filterKeywords = [''seo'', ''tool'']\<rparr>
        (k\<lparr>keyword := ''best seo tool''\<rparr>) \<and>
   \<not> includeMatch \<lparr>type = MatchAll, filterKeywords = [''seo'', ''tool'']\<rparr>
        (k\<lparr>keyword := ''seo guide''\<rparr>) \<and>
   (keepKeyword fs k \<longrightarrow> includeMatch (includeFilter fs) k)"
proof (intro conjI impI)
  assume "ts \<noteq> []"
  then show "includeMatch \<lparr>type = MatchAll, filterKeywords = ts\<rparr> k =
      (\<forall>t\<in>set ts. \<exists>p q. toLowerCase (keyword k) = p @ toLowerCase t @ q)"
    by (simp add: includeMatch_def list_all_iff containsTerm_iff)
next
  assume "ts \<noteq> []"
  then show "includeMatch \<lparr>type = MatchAny, filterKeywords = ts\<rparr> k =
      (\<exists>t\<in>set ts. \<exists>p q. toLowerCase (keyword k) = p @ toLowerCase t @ q)"
    by (simp add: includeMatch_def list_ex_iff containsTerm_iff)
next
  show "includeMatch \<lparr>type = m, filterKeywords = []\<rparr> k"
    by (simp add: includeMatch_def)
next
  show "includeMatch \<lparr>type = MatchAll, filterKeywords = [''seo'', ''tool'']\<rparr>
        (k\<lparr>keyword := ''best seo tool''\<rparr>)"
    by (simp add: includeMatch_def containsTerm_def lower_examples)
next
  show "\<not> includeMatch \<lparr>type = MatchAll, filterKeywords = [''seo'', ''tool'']\<rparr>
        (k\<lparr>keyword := ''seo guide''\<rparr>)"
    by (simp add: includeMatch_def containsTerm_def lower_examples)
next
  assume "keepKeyword fs k"
  then show "includeMatch (includeFilter fs) k" using keepKeyword_dims by blast
qed

theorem include_all_any_witness:
  "[''seo'', ''tool''] \<noteq> [] \<and>
   includeMatch \<lparr>type = MatchAll, filterKeywords = [''seo'', ''tool'']\<rparr>
     (sampleKeyword\<lparr>keyword := ''Best SEO Tool''\<rparr>) \<and>
   (\<exists>p q. toLowerCase ''Best SEO Tool'' = p @ toLowerCase ''seo'' @ q) \<and>
   (\<exists>p q. toLowerCase ''Best SEO Tool'' = p @ toLowerCase ''tool'' @ q) \<and>
   includeMatch \<lparr>type = MatchAny, filterKeywords = [''seo'', ''tool'']\<rparr>
     (sampleKeyword\<lparr>keyword := ''Best SEO Tool''\<rparr>) \<and>
   keepKeyword (initialFilterState\<lparr>includeFilter :=
       \<lparr>type = MatchAll, filterKeywords = [''seo'', ''tool'']\<rparr>\<rparr>)
     (sampleKeyword\<lparr>keyword := ''Best SEO Tool''\<rparr>)"
proof -
  let ?k = "sampleKeyword\<lparr>keyword := ''Best SEO Tool''\<rparr>"
  let ?f = "\<lparr>type = MatchAll, filterKeywords = [''seo'', ''tool'']\<rparr>"
  have a: "includeMatch ?f ?k"
    by (simp add: includeMatch_def containsTerm_def lower_examples)
  have b: "includeMatch \<lparr>type = MatchAny, filterKeywords = [''seo'', ''tool'']\<rparr> ?k"
    by (simp add: includeMatch_def containsTerm_def lower_examples)
  have c: "keepKeyword (initialFilterState\<lparr>includeFilter := ?f\<rparr>) ?k"
    using a by (simp add: keepKeyword_no_ranges initialFilterState_def intentMatch_def
        anyIntentSelected_def excludeMatch_def)
  from a b c show ?thesis
    using include_all_any [of "[''seo'', ''tool'']" ?k MatchAll "initialFilterState\<lparr>includeFilter := ?f\<rparr>"]
    by simp
qed

section \<open>The intent filter\<close>

lemma anyIntentSelected_iff: "anyIntentSelected si = (spec_selectedCodes si \<noteq> [])"
  by (simp add: anyIntentSelected_def spec_selectedCodes_def)

lemma intentMatch_chars:
  "intentMatch si k =
     (\<not> anyIntentSelected si \<or>
      (informational si \<and> CHR ''I'' \<in> set (intent k)) \<or>
      (transactional si \<and> CHR ''T'' \<in> set (intent k)) \<or>
      (commercial si \<and> CHR ''C'' \<in> set (intent k)) \<or>
      (navigational si \<and> CHR ''N'' \<in> set (intent k)))"
  by (simp add: intentMatch_def includes_str_single)

lemma intentMatch_codes:
  "intentMatch si k =
     (spec_selectedCodes si = [] \<or> (\<exists>c\<in>set (spec_selectedCodes si). c \<in> set (intent k)))"
  unfolding intentMatch_chars anyIntentSelected_iff
  by (auto simp: spec_selectedCodes_def split: if_splits)

text \<open>
  C7. The intent dimension passes when no intent is selected, and otherwise exactly when
  the intent string of the record contains at least one of the selected codes; it reads
  the selected intents only, not the modes of the text filters. With I and C selected,
  the intent "T,C" passes and "T,N" does not. A record that the filter keeps passes the
  intent dimension.
\<close>

theorem intent_any_of_selected:
  "intentMatch si k =
     (spec_selectedCodes si = [] \<or> (\<exists>c\<in>set (spec_selectedCodes si). c \<in> set (intent k))) \<and>
   intentMatch \<lparr>informational = True, transactional = False, commercial = True,
                navigational = False\<rparr> (k\<lparr>intent := ''T,C''\<rparr>) \<and>
   \<not> intentMatch \<lparr>informational = True, transactional = False, commercial = True,
                navigational = False\<rparr> (k\<lparr>intent := ''T,N''\<rparr>) \<and>
   (keepKeyword fs k \<longrightarrow> intentMatch (selectedIntents fs) k)"
proof (intro conjI impI)
  show "intentMatch si k =
     (spec_selectedCodes si = [] \<or> (\<exists>c\<in>set (spec_selectedCodes si). c \<in> set (intent k)))"
    by (rule intentMatch_codes)
next
  show "intentMatch \<lparr>informational = True, transactional = False, commercial = True,
                navigational = False\<rparr> (k\<lparr>intent := ''T,C''\<rparr>)"
    by (simp add: intentMatch_def anyIntentSelected_def)
next
  show "\<not> intentMatch \<lparr>informational = True, transactional = False, commercial = True,
                navigational = False\<rparr> (k\<lparr>intent := ''T,N''\<rparr>)"
    by (simp add: intentMatch_def anyIntentSelected_def)
next
  assume "keepKeyword fs k"
  then show "intentMatch (selectedIntents fs) k" using keepKeyword_dims by blast
qed

theorem intent_any_of_selected_witness:
  "spec_selectedCodes sampleIntents = ''IC'' \<and>
   CHR ''C'' \<in> set (intent sampleKeyword) \<and>
   intentMatch sampleIntents sampleKeyword \<and>
   \<not> intentMatch sampleIntents (sampleKeyword\<lparr>intent := ''T,N''\<rparr>)"
  using intent_any_of_selected [of sampleIntents sampleKeyword initialFilterState]
    intent_any_of_selected [of sampleIntents "sampleKeyword\<lparr>intent := ''T,N''\<rparr>" initialFilterState]
  by (simp add: sampleIntents_def sampleKeyword_def spec_selectedCodes_def)

text \<open>
  C10. For each selected intent the intent dimension looks for the upper-case letter I,
  T, C or N in the intent string. A lower-case letter does not count: with Informational
  selected the intent "i" does not pass while "I" does, and "i,t,c,n" does not pass with
  all four selected.
\<close>

theorem intent_is_case_sensitive:
  "intentMatch si k =
     (\<not> anyIntentSelected si \<or>
      (informational si \<and> CHR ''I'' \<in> set (intent k)) \<or>
      (transactional si \<and> CHR ''T'' \<in> set (intent k)) \<or>
      (commercial si \<and> CHR ''C'' \<in> set (intent k)) \<or>
      (navigational si \<and> CHR ''N'' \<in> set (intent k))) \<and>
   \<not> intentMatch \<lparr>informational = True, transactional = False, commercial = False,
                  navigational = False\<rparr> (k\<lparr>intent := ''i''\<rparr>) \<and>
   intentMatch \<lparr>informational = True, transactional = False, commercial = False,
                navigational = False\<rparr> (k\<lparr>intent := ''I''\<rparr>) \<and>
   \<not> intentMatch \<lparr>informational = True, transactional = True, commercial = True,
                  navigational = True\<rparr> (k\<lparr>intent := ''i,t,c,n''\<rparr>)"
  by (simp add: intentMatch_chars) (simp add: anyIntentSelected_def)

theorem intent_is_case_sensitive_witness:
  "anyIntentSelected (sampleIntents\<lparr>commercial := False\<rparr>) \<and>
   \<not> intentMatch (sampleIntents\<lparr>commercial := False\<rparr>) (sampleKeyword\<lparr>intent := ''i''\<rparr>) \<and>
   intentMatch (sampleIntents\<lparr>commercial := False\<rparr>) (sampleKeyword\<lparr>intent := ''I''\<rparr>)"
  using intent_is_case_sensitive [of "sampleIntents\<lparr>commercial := False\<rparr>" "sampleKeyword\<lparr>intent := ''i''\<rparr>"]
    intent_is_case_sensitive [of "sampleIntents\<lparr>commercial := False\<rparr>" "sampleKeyword\<lparr>intent := ''I''\<rparr>"]
  by (simp add: sampleIntents_def anyIntentSelected_def)

section \<open>The word count\<close>

lemma tokens_skip_leading: "spec_tokens (dropWhile isWhiteSpace s) = spec_tokens s"
  by (induction s) simp_all

lemma tokens_all_space: "list_all isWhiteSpace w \<Longrightarrow> spec_tokens w = []"
  by (induction w) simp_all

lemma takeWhile_all_space:
  "list_all isWhiteSpace w \<Longrightarrow> takeWhile (\<lambda>d. \<not> isWhiteSpace d) w = []"
  by (cases w) simp_all

lemma dropWhile_all_space:
  "list_all isWhiteSpace w \<Longrightarrow> dropWhile (\<lambda>d. \<not> isWhiteSpace d) w = w"
  by (cases w) simp_all

lemma takeWhile_before_space:
  "list_all isWhiteSpace w \<Longrightarrow>
     takeWhile (\<lambda>d. \<not> isWhiteSpace d) (cs @ w) = takeWhile (\<lambda>d. \<not> isWhiteSpace d) cs"
  by (induction cs) (simp_all add: takeWhile_all_space)

lemma dropWhile_before_space:
  "list_all isWhiteSpace w \<Longrightarrow>
     dropWhile (\<lambda>d. \<not> isWhiteSpace d) (cs @ w) = dropWhile (\<lambda>d. \<not> isWhiteSpace d) cs @ w"
  by (induction cs) (simp_all add: dropWhile_all_space)

lemma tokens_skip_trailing:
  "list_all isWhiteSpace w \<Longrightarrow> spec_tokens (s @ w) = spec_tokens s"
proof (induction s rule: spec_tokens.induct)
  case 1
  then show ?case by (simp add: tokens_all_space)
next
  case (2 c cs)
  show ?case
  proof (cases "isWhiteSpace c")
    case True
    with 2 show ?thesis by simp
  next
    case False
    with 2 show ?thesis
      by (simp add: takeWhile_before_space dropWhile_before_space)
  qed
qed

lemma trim_decompose:
  "\<exists>u w. list_all isWhiteSpace u \<and> list_all isWhiteSpace w \<and> s = u @ trim s @ w"
proof -
  let ?t = "dropWhile isWhiteSpace s"
  have a: "s = takeWhile isWhiteSpace s @ ?t" by simp
  have "rev (rev ?t) =
        rev (takeWhile isWhiteSpace (rev ?t) @ dropWhile isWhiteSpace (rev ?t))"
    by (simp only: takeWhile_dropWhile_id)
  then have "?t = rev (dropWhile isWhiteSpace (rev ?t)) @ rev (takeWhile isWhiteSpace (rev ?t))"
    by (simp only: rev_append rev_rev_ident)
  then have b: "?t = trim s @ rev (takeWhile isWhiteSpace (rev ?t))"
    by (simp only: trim_def)
  have c: "list_all isWhiteSpace (takeWhile isWhiteSpace s)"
    "list_all isWhiteSpace (rev (takeWhile isWhiteSpace (rev ?t)))"
    by (auto simp: list_all_iff dest: set_takeWhileD)
  from a b have "s = takeWhile isWhiteSpace s @ trim s @ rev (takeWhile isWhiteSpace (rev ?t))"
    by metis
  with c show ?thesis by blast
qed

lemma tokens_skip_leading_all:
  "list_all isWhiteSpace u \<Longrightarrow> spec_tokens (u @ s) = spec_tokens s"
  by (induction u) simp_all

lemma tokens_trim: "spec_tokens (trim s) = spec_tokens s"
proof -
  obtain u w where "list_all isWhiteSpace u" "list_all isWhiteSpace w" "s = u @ trim s @ w"
    using trim_decompose by blast
  then show ?thesis
    by (metis tokens_skip_leading_all tokens_skip_trailing)
qed

lemma last_dropWhile_nonempty:
  "dropWhile P xs \<noteq> [] \<Longrightarrow> last (dropWhile P xs) = last xs"
  by (induction xs) (auto split: if_splits)

lemma split_from_word:
  "\<not> isWhiteSpace c \<Longrightarrow> (cs \<noteq> [] \<longrightarrow> \<not> isWhiteSpace (last cs)) \<Longrightarrow>
     split_ws_from cur (c # cs) =
     (cur @ takeWhile (\<lambda>d. \<not> isWhiteSpace d) (c # cs)) #
       spec_tokens (dropWhile (\<lambda>d. \<not> isWhiteSpace d) cs)"
proof (induction "length cs" arbitrary: cur c cs rule: less_induct)
  case less
  show ?case
  proof (cases cs)
    case Nil
    with less.prems show ?thesis by simp
  next
    case (Cons d ds)
    show ?thesis
    proof (cases "isWhiteSpace d")
      case False
      have "split_ws_from (cur @ [c]) (d # ds) =
            ((cur @ [c]) @ takeWhile (\<lambda>d. \<not> isWhiteSpace d) (d # ds)) #
              spec_tokens (dropWhile (\<lambda>d. \<not> isWhiteSpace d) ds)"
        using less.prems False Cons by (intro less.hyps) auto
      with less.prems False Cons show ?thesis by simp
    next
      case True
      let ?r = "dropWhile isWhiteSpace ds"
      from less.prems True Cons have ds: "ds \<noteq> []" "\<not> isWhiteSpace (last ds)"
        by (auto split: if_splits)
      then have "last ds \<in> set ds" by simp
      with ds have rne: "?r \<noteq> []" by (auto simp: dropWhile_eq_Nil_conv)
      then obtain e es where r: "?r = e # es" by (cases ?r) auto
      then have e: "\<not> isWhiteSpace e" using hd_dropWhile [OF rne] by simp
      have "last ?r = last ds" using rne by (simp add: last_dropWhile_nonempty)
      with r ds have es: "es \<noteq> [] \<longrightarrow> \<not> isWhiteSpace (last es)" by auto
      have "length ?r \<le> length ds" by (rule length_dropWhile_le)
      with r Cons have len: "length es < length cs" by simp
      have "split_ws_from [] (e # es) =
            ([] @ takeWhile (\<lambda>d. \<not> isWhiteSpace d) (e # es)) #
              spec_tokens (dropWhile (\<lambda>d. \<not> isWhiteSpace d) es)"
        using len e es by (rule less.hyps)
      also have "\<dots> = spec_tokens (e # es)" using e by simp
      also have "\<dots> = spec_tokens ds" using r tokens_skip_leading [of ds] by simp
      finally have "split_ws_from [] ?r = spec_tokens ds" using r by simp
      with less.prems True Cons show ?thesis by simp
    qed
  qed
qed

lemma trim_ends:
  assumes "trim s \<noteq> []"
  shows "\<not> isWhiteSpace (hd (trim s))" and "\<not> isWhiteSpace (last (trim s))"
proof -
  let ?t = "dropWhile isWhiteSpace s"
  let ?u = "dropWhile isWhiteSpace (rev ?t)"
  from assms have u: "?u \<noteq> []" by (simp add: trim_def)
  have t: "?t \<noteq> []"
  proof
    assume a: "?t = []"
    have "?u = []" unfolding a by simp
    with u show False ..
  qed
  have "last (trim s) = hd ?u" using u by (simp add: trim_def last_rev)
  then show "\<not> isWhiteSpace (last (trim s))" using hd_dropWhile [OF u] by simp
  have "hd (trim s) = last ?u" using u by (simp add: trim_def hd_rev)
  also have "\<dots> = last (rev ?t)" using u by (simp add: last_dropWhile_nonempty)
  also have "\<dots> = hd ?t" using t by (simp add: last_rev)
  finally show "\<not> isWhiteSpace (hd (trim s))" using hd_dropWhile [OF t] by simp
qed

lemma split_trim_tokens:
  assumes "trim s \<noteq> []"
  shows "split_ws (trim s) = spec_tokens s"
proof -
  from assms obtain c cs where t: "trim s = c # cs" by (cases "trim s") auto
  with trim_ends [OF assms] have c: "\<not> isWhiteSpace c"
    and cs: "cs \<noteq> [] \<longrightarrow> \<not> isWhiteSpace (last cs)" by auto
  have "split_ws (trim s) = split_ws_from [] (c # cs)" by (simp add: split_ws_def t)
  also have "\<dots> = ([] @ takeWhile (\<lambda>d. \<not> isWhiteSpace d) (c # cs)) #
       spec_tokens (dropWhile (\<lambda>d. \<not> isWhiteSpace d) cs)"
    using c cs by (rule split_from_word)
  also have "\<dots> = spec_tokens (trim s)" using c t by simp
  finally show ?thesis by (simp add: tokens_trim)
qed

text \<open>The word count is the number of tokens, except that it is 1 where there is none.\<close>

lemma getWordCount_tokens:
  "getWordCount k = (if trim k = [] then 1 else length (spec_tokens k))"
  by (simp add: getWordCount_def split_trim_tokens) (simp add: split_ws_def)

lemma blank_tokens: "trim k = [] \<Longrightarrow> spec_tokens k = []"
  using tokens_trim [of k] by simp

text \<open>
  C3. \<open>getWordCount\<close> returns 1, not 0, for the empty keyword and for a keyword of white
  space only, both of which have no token: \<open>split\<close> returns the empty string as the only
  piece of the empty string. On a keyword with a token the count is the number of the
  tokens (\<open>getWordCount_tokens\<close>), as for "best  seo tool ". A record with the empty
  keyword therefore passes a word-count range with the minimum 1.
\<close>

theorem word_count_of_blank_keyword:
  "getWordCount [] = 1 \<and> getWordCount ''   '' = 1 \<and>
   spec_tokens [] = [] \<and> spec_tokens ''   '' = [] \<and>
   getWordCount ''best  seo tool '' = 3 \<and> length (spec_tokens ''best  seo tool '') = 3 \<and>
   keepKeyword (initialFilterState\<lparr>minWordCount := ''1''\<rparr>) (sampleKeyword\<lparr>keyword := []\<rparr>)"
proof -
  have a: "trim [] = []" "trim ''   '' = []" "trim ''best  seo tool '' = ''best  seo tool''"
    by (simp_all add: trim_def isWhiteSpace_def)
  have c: "parseInt ''1'' = Fin 1"
    by (simp add: parseInt_def isWhiteSpace_def digitVal_def digitsValue_def)
  have d: "keepKeyword (initialFilterState\<lparr>minWordCount := ''1''\<rparr>) (sampleKeyword\<lparr>keyword := []\<rparr>)"
    by (simp add: keepKeyword_def minVol_def maxVol_def minKDVal_def maxKDVal_def
        minCPCVal_def maxCPCVal_def minWords_def maxWords_def minTraffic_def maxTraffic_def
        initialFilterState_def intentMatch_def anyIntentSelected_def includeMatch_def
        excludeMatch_def getWordCount_tokens a c)
  have e: "getWordCount [] = 1" "getWordCount ''   '' = 1"
    by (simp_all add: getWordCount_tokens a)
  have f: "spec_tokens [] = []" "spec_tokens ''   '' = []"
    by (rule blank_tokens, rule a)+
  have g: "getWordCount ''best  seo tool '' = 3" "length (spec_tokens ''best  seo tool '') = 3"
    by (simp_all add: getWordCount_tokens a isWhiteSpace_def)
  from d e f g show ?thesis by (intro conjI)
qed

section \<open>The numeric ranges\<close>

lemma lower_bound_iff:
  "spec_parsable parse s \<Longrightarrow>
     js_ge (Fin v) (if s \<noteq> [] then parse s else NegInf) =
     (case spec_bound parse s of None \<Rightarrow> True | Some a \<Rightarrow> a \<le> v)"
  by (auto simp: spec_parsable_def spec_bound_def split: jsnum.splits)

lemma upper_bound_iff:
  "spec_parsable parse s \<Longrightarrow>
     js_le (Fin v) (if s \<noteq> [] then parse s else PosInf) =
     (case spec_bound parse s of None \<Rightarrow> True | Some b \<Rightarrow> v \<le> b)"
  by (auto simp: spec_parsable_def spec_bound_def split: jsnum.splits)

lemma range_iff:
  "spec_parsable parse smin \<Longrightarrow> spec_parsable parse smax \<Longrightarrow>
     (js_ge (Fin v) (if smin \<noteq> [] then parse smin else NegInf) \<and>
      js_le (Fin v) (if smax \<noteq> [] then parse smax else PosInf)) =
     spec_inRange (spec_bound parse smin) v (spec_bound parse smax)"
  by (simp add: lower_bound_iff upper_bound_iff spec_inRange_def)

text \<open>
  When each of the ten bound strings is empty or parses to a finite number, the filter
  keeps a record exactly when, for each of volume, difficulty, cost per click, word count
  (as \<open>getWordCount\<close> gives it) and traffic potential, \<open>min \<le> value \<le> max\<close> holds for the
  parsed bounds, and the intent, include and exclude dimensions pass.
\<close>

lemma range_dimensions:
  assumes "spec_parsable parseInt (minVolume fs)" and "spec_parsable parseInt (maxVolume fs)"
    and "spec_parsable parseInt (minKD fs)" and "spec_parsable parseInt (maxKD fs)"
    and "spec_parsable parseFloat (minCPC fs)" and "spec_parsable parseFloat (maxCPC fs)"
    and "spec_parsable parseInt (minWordCount fs)"
    and "spec_parsable parseInt (maxWordCount fs)"
    and "spec_parsable parseInt (minTrafficPotential fs)"
    and "spec_parsable parseInt (maxTrafficPotential fs)"
  shows "keepKeyword fs k =
     (spec_inRange (spec_bound parseInt (minVolume fs)) (parseVolume (volume k))
        (spec_bound parseInt (maxVolume fs)) \<and>
      spec_inRange (spec_bound parseInt (minKD fs)) (kd k) (spec_bound parseInt (maxKD fs)) \<and>
      spec_inRange (spec_bound parseFloat (minCPC fs)) (cpc k)
        (spec_bound parseFloat (maxCPC fs)) \<and>
      spec_inRange (spec_bound parseInt (minWordCount fs)) (of_nat (getWordCount (keyword k)))
        (spec_bound parseInt (maxWordCount fs)) \<and>
      spec_inRange (spec_bound parseInt (minTrafficPotential fs)) (trafficPotential k)
        (spec_bound parseInt (maxTrafficPotential fs)) \<and>
      intentMatch (selectedIntents fs) k \<and> includeMatch (includeFilter fs) k \<and>
      excludeMatch (excludeFilter fs) k)"
proof -
  note r = range_iff [symmetric]
  have v: "(js_ge (Fin (parseVolume (volume k))) (minVol fs) \<and>
            js_le (Fin (parseVolume (volume k))) (maxVol fs)) =
           spec_inRange (spec_bound parseInt (minVolume fs)) (parseVolume (volume k))
             (spec_bound parseInt (maxVolume fs))"
    unfolding minVol_def maxVol_def using assms(1,2) by (rule range_iff)
  have d: "(js_ge (Fin (kd k)) (minKDVal fs) \<and> js_le (Fin (kd k)) (maxKDVal fs)) =
           spec_inRange (spec_bound parseInt (minKD fs)) (kd k) (spec_bound parseInt (maxKD fs))"
    unfolding minKDVal_def maxKDVal_def using assms(3,4) by (rule range_iff)
  have c: "(js_ge (Fin (cpc k)) (minCPCVal fs) \<and> js_le (Fin (cpc k)) (maxCPCVal fs)) =
           spec_inRange (spec_bound parseFloat (minCPC fs)) (cpc k)
             (spec_bound parseFloat (maxCPC fs))"
    unfolding minCPCVal_def maxCPCVal_def using assms(5,6) by (rule range_iff)
  have w: "(js_ge (Fin (of_nat (getWordCount (keyword k)))) (minWords fs) \<and>
            js_le (Fin (of_nat (getWordCount (keyword k)))) (maxWords fs)) =
           spec_inRange (spec_bound parseInt (minWordCount fs))
             (of_nat (getWordCount (keyword k))) (spec_bound parseInt (maxWordCount fs))"
    unfolding minWords_def maxWords_def using assms(7,8) by (rule range_iff)
  have t: "(js_ge (Fin (trafficPotential k)) (minTraffic fs) \<and>
            js_le (Fin (trafficPotential k)) (maxTraffic fs)) =
           spec_inRange (spec_bound parseInt (minTrafficPotential fs)) (trafficPotential k)
             (spec_bound parseInt (maxTrafficPotential fs))"
    unfolding minTraffic_def maxTraffic_def using assms(9,10) by (rule range_iff)
  show ?thesis
    unfolding keepKeyword_def v [symmetric] d [symmetric] c [symmetric] w [symmetric]
      t [symmetric]
    by blast
qed

lemma range_dimensions_sample:
  "spec_parsable parseInt (minVolume sampleRanges) \<and>
   spec_parsable parseInt (maxVolume sampleRanges) \<and>
   spec_parsable parseInt (minKD sampleRanges) \<and>
   spec_parsable parseInt (maxKD sampleRanges) \<and>
   spec_parsable parseFloat (minCPC sampleRanges) \<and>
   spec_parsable parseFloat (maxCPC sampleRanges) \<and>
   spec_parsable parseInt (minWordCount sampleRanges) \<and>
   spec_parsable parseInt (maxWordCount sampleRanges) \<and>
   spec_parsable parseInt (minTrafficPotential sampleRanges) \<and>
   spec_parsable parseInt (maxTrafficPotential sampleRanges) \<and>
   spec_bound parseInt (minVolume sampleRanges) = Some (parseVolume (volume sampleKeyword)) \<and>
   spec_bound parseInt (maxVolume sampleRanges) = Some (parseVolume (volume sampleKeyword)) \<and>
   spec_bound parseFloat (maxCPC sampleRanges) = Some (cpc sampleKeyword) \<and>
   keepKeyword sampleRanges sampleKeyword \<and>
   \<not> keepKeyword sampleRanges (sampleKeyword\<lparr>volume := ''1,201''\<rparr>)"
proof -
  have f: "minVolume sampleRanges = ''1200''" "maxVolume sampleRanges = ''1200''"
    "minKD sampleRanges = ''10''" "maxKD sampleRanges = []"
    "minCPC sampleRanges = []" "maxCPC sampleRanges = ''1.5''"
    "minWordCount sampleRanges = ''3''" "maxWordCount sampleRanges = ''3''"
    "minTrafficPotential sampleRanges = []" "maxTrafficPotential sampleRanges = ''900''"
    "selectedIntents sampleRanges = selectedIntents initialFilterState"
    "includeFilter sampleRanges = includeFilter initialFilterState"
    "excludeFilter sampleRanges = excludeFilter initialFilterState"
    by (simp_all add: sampleRanges_def initialFilterState_def)
  have p: "spec_parsable parseInt (minVolume sampleRanges)"
    "spec_parsable parseInt (maxVolume sampleRanges)"
    "spec_parsable parseInt (minKD sampleRanges)"
    "spec_parsable parseInt (maxKD sampleRanges)"
    "spec_parsable parseFloat (minCPC sampleRanges)"
    "spec_parsable parseFloat (maxCPC sampleRanges)"
    "spec_parsable parseInt (minWordCount sampleRanges)"
    "spec_parsable parseInt (maxWordCount sampleRanges)"
    "spec_parsable parseInt (minTrafficPotential sampleRanges)"
    "spec_parsable parseInt (maxTrafficPotential sampleRanges)"
    by (simp_all add: f spec_parsable_def parse_examples)
  have v: "parseVolume ''1,201'' = 1201"
    by (simp add: parseVolume_def removeCommas_def parseInt_def isWhiteSpace_def
      digitVal_def digitsValue_def)
  have k: "kd sampleKeyword = 10" "cpc sampleKeyword = 3 / 2"
    "trafficPotential sampleKeyword = 900"
    by (simp_all add: sampleKeyword_def)
  have w: "getWordCount (keyword (sampleKeyword\<lparr>volume := ''1,201''\<rparr>)) = 3"
    using sampleKeyword_values(2) by simp
  show ?thesis
    using range_dimensions [OF p, of sampleKeyword]
      range_dimensions [OF p, of "sampleKeyword\<lparr>volume := ''1,201''\<rparr>"]
    by (simp add: f spec_parsable_def spec_bound_def spec_inRange_def parse_examples
        sampleKeyword_values initial_text_dims k v w)
qed

text \<open>On a record whose keyword has a token, the word count in that equivalence is the
  number of the white-space-delimited tokens of the keyword.\<close>

lemma range_dimensions_tokens:
  assumes "spec_parsable parseInt (minVolume fs)" and "spec_parsable parseInt (maxVolume fs)"
    and "spec_parsable parseInt (minKD fs)" and "spec_parsable parseInt (maxKD fs)"
    and "spec_parsable parseFloat (minCPC fs)" and "spec_parsable parseFloat (maxCPC fs)"
    and "spec_parsable parseInt (minWordCount fs)"
    and "spec_parsable parseInt (maxWordCount fs)"
    and "spec_parsable parseInt (minTrafficPotential fs)"
    and "spec_parsable parseInt (maxTrafficPotential fs)"
    and "trim (keyword k) \<noteq> []"
  shows "keepKeyword fs k =
     (spec_inRange (spec_bound parseInt (minVolume fs)) (parseVolume (volume k))
        (spec_bound parseInt (maxVolume fs)) \<and>
      spec_inRange (spec_bound parseInt (minKD fs)) (kd k) (spec_bound parseInt (maxKD fs)) \<and>
      spec_inRange (spec_bound parseFloat (minCPC fs)) (cpc k)
        (spec_bound parseFloat (maxCPC fs)) \<and>
      spec_inRange (spec_bound parseInt (minWordCount fs))
        (of_nat (length (spec_tokens (keyword k)))) (spec_bound parseInt (maxWordCount fs)) \<and>
      spec_inRange (spec_bound parseInt (minTrafficPotential fs)) (trafficPotential k)
        (spec_bound parseInt (maxTrafficPotential fs)) \<and>
      intentMatch (selectedIntents fs) k \<and> includeMatch (includeFilter fs) k \<and>
      excludeMatch (excludeFilter fs) k)"
proof -
  have "getWordCount (keyword k) = length (spec_tokens (keyword k))"
    using assms(11) by (simp add: getWordCount_tokens)
  then show ?thesis
    using range_dimensions [OF assms(1-10), of k] by simp
qed

text \<open>
  C5. On a record with the empty keyword the word-count range is not \<open>min \<le> value \<le> max\<close>
  for the derived word count. The keyword has no token, so with the minimum 1 the range
  \<open>1 \<le> 0\<close> fails, yet the filter keeps the record; with the maximum 0 the range \<open>0 \<le> 0\<close>
  holds, yet the filter rejects the record. The filter compares the 1 that
  \<open>getWordCount\<close> returns for it. On every record whose keyword has a token, and in the
  other four dimensions, the filter is the range test (\<open>range_dimensions_tokens\<close>).
\<close>

theorem word_count_range_on_blank_keyword:
  "spec_bound parseInt ''1'' = Some 1 \<and> spec_bound parseInt ''0'' = Some 0 \<and>
   spec_tokens (keyword (k\<lparr>keyword := []\<rparr>)) = [] \<and>
   \<not> spec_inRange (spec_bound parseInt ''1'')
        (of_nat (length (spec_tokens (keyword (k\<lparr>keyword := []\<rparr>))))) (spec_bound parseInt []) \<and>
   keepKeyword (initialFilterState\<lparr>minWordCount := ''1''\<rparr>) (k\<lparr>keyword := []\<rparr>) \<and>
   spec_inRange (spec_bound parseInt [])
        (of_nat (length (spec_tokens (keyword (k\<lparr>keyword := []\<rparr>))))) (spec_bound parseInt ''0'') \<and>
   \<not> keepKeyword (initialFilterState\<lparr>maxWordCount := ''0''\<rparr>) (k\<lparr>keyword := []\<rparr>)"
proof -
  have w: "getWordCount (keyword (k\<lparr>keyword := []\<rparr>)) = 1"
    by (simp add: getWordCount_tokens trim_def)
  have a: "keepKeyword (initialFilterState\<lparr>minWordCount := ''1''\<rparr>) (k\<lparr>keyword := []\<rparr>)"
    using w by (simp add: keepKeyword_def minVol_def maxVol_def minKDVal_def maxKDVal_def
        minCPCVal_def maxCPCVal_def minWords_def maxWords_def minTraffic_def maxTraffic_def
        initialFilterState_def intentMatch_def anyIntentSelected_def includeMatch_def
        excludeMatch_def parse_examples)
  have b: "\<not> keepKeyword (initialFilterState\<lparr>maxWordCount := ''0''\<rparr>) (k\<lparr>keyword := []\<rparr>)"
    using w by (simp add: keepKeyword_def minWords_def maxWords_def parse_examples)
  have c: "spec_bound parseInt ''1'' = Some 1" "spec_bound parseInt ''0'' = Some 0"
    "spec_bound parseInt [] = None"
    by (simp_all add: spec_bound_def parse_examples)
  show ?thesis
    using a b by (simp add: c spec_inRange_def)
qed

lemma nan_lower: "\<not> js_ge x NaN"
  by (cases x) simp_all

lemma nan_upper: "\<not> js_le x NaN"
  by (cases x) simp_all

text \<open>A bound that is not empty and parses to NaN makes the filter reject every record.\<close>

lemma nan_bound_rejects:
  assumes "(minVolume fs \<noteq> [] \<and> parseInt (minVolume fs) = NaN) \<or>
           (maxVolume fs \<noteq> [] \<and> parseInt (maxVolume fs) = NaN) \<or>
           (minKD fs \<noteq> [] \<and> parseInt (minKD fs) = NaN) \<or>
           (maxKD fs \<noteq> [] \<and> parseInt (maxKD fs) = NaN) \<or>
           (minCPC fs \<noteq> [] \<and> parseFloat (minCPC fs) = NaN) \<or>
           (maxCPC fs \<noteq> [] \<and> parseFloat (maxCPC fs) = NaN) \<or>
           (minWordCount fs \<noteq> [] \<and> parseInt (minWordCount fs) = NaN) \<or>
           (maxWordCount fs \<noteq> [] \<and> parseInt (maxWordCount fs) = NaN) \<or>
           (minTrafficPotential fs \<noteq> [] \<and> parseInt (minTrafficPotential fs) = NaN) \<or>
           (maxTrafficPotential fs \<noteq> [] \<and> parseInt (maxTrafficPotential fs) = NaN)"
  shows "\<not> keepKeyword fs k"
  using assms
  by (elim disjE conjE)
     (simp_all add: keepKeyword_def minVol_def maxVol_def minKDVal_def maxKDVal_def
        minCPCVal_def maxCPCVal_def minWords_def maxWords_def minTraffic_def maxTraffic_def
        nan_lower nan_upper)

text \<open>
  C2. The code does not treat a bound that fails to parse as absent. The minimum volume
  ".5" is a value a number input delivers; \<open>parseInt\<close> reads no digit in it and gives NaN
  (\<open>parseFloat\<close> reads it as one half), the comparison with NaN is false, and the filter
  rejects every record, where with the bound cleared it keeps every record. The same
  holds for "-.5" as the maximum traffic potential, and for any bound that parses to NaN
  (\<open>nan_bound_rejects\<close>).
\<close>

theorem unparsable_bound_not_absent:
  "parseInt ''.5'' = NaN \<and> parseFloat ''.5'' = Fin (1 / 2) \<and>
   minVol (initialFilterState\<lparr>minVolume := ''.5''\<rparr>) = NaN \<and>
   maxVol (initialFilterState\<lparr>minVolume := ''.5''\<rparr>) = PosInf \<and>
   \<not> keepKeyword (initialFilterState\<lparr>minVolume := ''.5''\<rparr>) k \<and>
   keepKeyword (initialFilterState\<lparr>minVolume := []\<rparr>) k \<and>
   \<not> keepKeyword (initialFilterState\<lparr>maxTrafficPotential := ''-.5''\<rparr>) k"
proof -
  have a: "initialFilterState\<lparr>minVolume := []\<rparr> = initialFilterState"
    by (simp add: initialFilterState_def)
  have b: "\<not> keepKeyword (initialFilterState\<lparr>minVolume := ''.5''\<rparr>) k"
    by (rule nan_bound_rejects) (simp add: parse_examples)
  have c: "\<not> keepKeyword (initialFilterState\<lparr>maxTrafficPotential := ''-.5''\<rparr>) k"
    by (rule nan_bound_rejects) (simp add: parse_examples)
  have d: "minVol (initialFilterState\<lparr>minVolume := ''.5''\<rparr>) = NaN"
    "maxVol (initialFilterState\<lparr>minVolume := ''.5''\<rparr>) = PosInf"
    by (simp_all add: minVol_def maxVol_def parse_examples initialFilterState_def)
  show ?thesis
    by (simp add: a b c d parse_examples keepKeyword_initial)
qed

section \<open>Summary values and sorting\<close>

lemma foldl_plus_sum_list:
  "foldl (\<lambda>sum item. sum + f item) a xs = a + sum_list (map f xs)" for a :: rat
  by (induction xs arbitrary: a) simp_all

lemma totalVolume_sum: "totalVolume ks = sum_list (map (\<lambda>r. parseVolume (volume r)) ks)"
  by (simp add: totalVolume_def foldl_plus_sum_list)

lemma Math_round_iff:
  "(Math_round x = n) = (of_int n - 1 / 2 \<le> x \<and> x < of_int n + 1 / 2)"
  unfolding Math_round_def floor_eq_iff by auto

lemma averageKD_nonempty:
  "ks \<noteq> [] \<Longrightarrow> averageKD ks = Math_round (sum_list (map kd ks) / of_nat (length ks))"
  by (simp add: averageKD_def foldl_plus_sum_list)

text \<open>
  C8. The total volume is the sum of the parsed volumes, where a volume is parsed with
  its commas removed and is 0 when it does not parse. The average difficulty of a
  non-empty collection is the integer \<open>n\<close> with \<open>n - 1/2 \<le> sum / count < n + 1/2\<close>, that
  is the quotient rounded to the nearest integer with a tie rounded up. Both are 0 for
  the empty collection, and the difficulties 10 and 15 give 13.
\<close>

theorem aggregates:
  "totalVolume ks = sum_list (map (\<lambda>r. parseVolume (volume r)) ks) \<and>
   (parseInt (removeCommas v) = NaN \<longrightarrow> parseVolume v = 0) \<and>
   parseVolume ''1,200'' = 1200 \<and>
   totalVolume [] = 0 \<and> averageKD [] = 0 \<and>
   (ks \<noteq> [] \<longrightarrow>
      (averageKD ks = n) =
      (of_int n - 1 / 2 \<le> sum_list (map kd ks) / of_nat (length ks) \<and>
       sum_list (map kd ks) / of_nat (length ks) < of_int n + 1 / 2)) \<and>
   averageKD [k1\<lparr>kd := 10\<rparr>, k2\<lparr>kd := 15\<rparr>] = 13"
proof (intro conjI impI)
  show "totalVolume ks = sum_list (map (\<lambda>r. parseVolume (volume r)) ks)"
    by (rule totalVolume_sum)
next
  assume "parseInt (removeCommas v) = NaN"
  then show "parseVolume v = 0" by (simp add: parseVolume_def)
next
  show "parseVolume ''1,200'' = 1200" by (rule parseVolume_examples)
next
  show "totalVolume [] = 0" by (simp add: totalVolume_def)
next
  show "averageKD [] = 0" by (simp add: averageKD_def)
next
  assume "ks \<noteq> []"
  then show "(averageKD ks = n) =
      (of_int n - 1 / 2 \<le> sum_list (map kd ks) / of_nat (length ks) \<and>
       sum_list (map kd ks) / of_nat (length ks) < of_int n + 1 / 2)"
    using averageKD_nonempty [of ks] Math_round_iff [of "sum_list (map kd ks) / of_nat (length ks)" n]
    by simp
next
  show "averageKD [k1\<lparr>kd := 10\<rparr>, k2\<lparr>kd := 15\<rparr>] = 13"
    by (simp add: averageKD_def Math_round_iff)
qed

theorem aggregates_witness:
  "parseInt (removeCommas ''n/a'') = NaN \<and> parseVolume ''n/a'' = 0 \<and>
   sampleList \<noteq> [] \<and>
   totalVolume sampleList = 2400 \<and>
   averageKD sampleList = 12 \<and>
   rat_of_int 12 - 1 / 2 \<le> sum_list (map kd sampleList) / of_nat (length sampleList) \<and>
   sum_list (map kd sampleList) / of_nat (length sampleList) < rat_of_int 12 + 1 / 2"
proof -
  have a: "parseInt (removeCommas ''n/a'') = NaN"
    by (simp add: removeCommas_def parseInt_def isWhiteSpace_def digitVal_def)
  have b: "sampleList \<noteq> []" by (simp add: sampleList_def)
  have c: "sum_list (map kd sampleList) / of_nat (length sampleList) = 35 / 3"
    by (simp add: sampleList_def)
  have d: "map (\<lambda>r. parseVolume (volume r)) sampleList = [1200, 1200, 0]"
    by (simp add: sampleList_def sampleKeyword_def parseVolume_examples)
  from a b show ?thesis
    using aggregates [of sampleList "''n/a''" 12 sampleKeyword sampleKeyword]
    by (simp add: c d)
qed

lemma insertBy_insort_key:
  assumes "\<And>a b. (cmp a b \<le> 0) = (key a \<le> key b)"
  shows "insertBy cmp x ys = insort_key key x ys"
  by (induction ys) (simp_all add: assms)

lemma array_sort_sort_key:
  fixes key :: "'a \<Rightarrow> rat"
  assumes "\<And>a b. (cmp a b \<le> 0) = (key a \<le> key b)"
  shows "array_sort cmp xs = sort_key key xs"
  by (induction xs) (simp_all add: array_sort_def sort_key_def insertBy_insort_key [OF assms])

lemma compare_asc: "compareKeywords (Some f) Asc a b = spec_sortValue f a - spec_sortValue f b"
  by (cases f) (simp_all add: compareKeywords_def)

lemma compare_desc: "compareKeywords (Some f) Desc a b = - compareKeywords (Some f) Asc a b"
  by (simp add: compareKeywords_def)

lemma compare_none: "compareKeywords None d a b = 0"
  by (simp add: compareKeywords_def)

lemma insertBy_zero: "insertBy (\<lambda>a b. 0) x ys = x # ys"
  by (cases ys) simp_all

lemma array_sort_zero: "array_sort (\<lambda>a b. 0) xs = xs"
  by (induction xs) (simp_all add: array_sort_def insertBy_zero)

lemma sorted_none: "sortedKeywords None d xs = xs"
proof -
  have "compareKeywords None d = (\<lambda>a b. 0)" by (intro ext) (rule compare_none)
  then show ?thesis by (simp add: sortedKeywords_def array_sort_zero)
qed

lemma sorted_asc: "sortedKeywords (Some f) Asc xs = sort_key (spec_sortValue f) xs"
  unfolding sortedKeywords_def
  by (rule array_sort_sort_key) (simp add: compare_asc)

lemma sorted_desc: "sortedKeywords (Some f) Desc xs = sort_key (\<lambda>r. - spec_sortValue f r) xs"
  unfolding sortedKeywords_def
  by (rule array_sort_sort_key) (simp add: compare_desc compare_asc)

lemma sorted_stable:
  "filter (\<lambda>r. spec_sortValue f r = v) (sortedKeywords (Some f) d xs) =
   filter (\<lambda>r. spec_sortValue f r = v) xs"
proof (cases d)
  case Asc
  then show ?thesis by (simp add: sorted_asc sort_key_stable)
next
  case Desc
  have "filter (\<lambda>r. - spec_sortValue f r = - v) (sort_key (\<lambda>r. - spec_sortValue f r) xs) =
        filter (\<lambda>r. - spec_sortValue f r = - v) xs"
    by (rule sort_key_stable)
  with Desc show ?thesis by (simp add: sorted_desc)
qed

lemma sorted_mset: "mset (sortedKeywords sf d xs) = mset xs"
proof (cases sf)
  case None
  then show ?thesis by (simp add: sorted_none)
next
  case (Some f)
  then show ?thesis by (cases d) (simp_all add: sorted_asc sorted_desc)
qed

lemma sorted_ordered:
  "sorted_wrt (\<lambda>a b. compareKeywords sf d a b \<le> 0) (sortedKeywords sf d xs)"
proof (cases sf)
  case None
  then show ?thesis by (simp add: compare_none)
next
  case (Some f)
  show ?thesis
  proof (cases d)
    case Asc
    have "sorted (map (spec_sortValue f) (sort_key (spec_sortValue f) xs))"
      by (rule sorted_sort_key)
    then show ?thesis using Some Asc by (simp add: sorted_asc compare_asc sorted_map)
  next
    case Desc
    have "sorted (map (\<lambda>r. - spec_sortValue f r) (sort_key (\<lambda>r. - spec_sortValue f r) xs))"
      by (rule sorted_sort_key)
    then show ?thesis
      using Some Desc by (simp add: sorted_desc compare_desc compare_asc sorted_map)
  qed
qed

text \<open>The volume filter with the same number as minimum and maximum keeps exactly the
  records that the comparator sorts under that number.\<close>

lemma volume_filter_reads_sort_value:
  assumes "parseInt s = Fin n"
  shows "keepKeyword (initialFilterState\<lparr>minVolume := s, maxVolume := s\<rparr>) a =
         (spec_sortValue SortVolume a = n)"
proof -
  have s: "s \<noteq> []" using assms by (auto simp: parse_examples)
  have "keepKeyword (initialFilterState\<lparr>minVolume := s, maxVolume := s\<rparr>) a =
        (n \<le> parseVolume (volume a) \<and> parseVolume (volume a) \<le> n)"
    using s assms
    by (simp add: keepKeyword_def minVol_def maxVol_def minKDVal_def maxKDVal_def
        minCPCVal_def maxCPCVal_def minWords_def maxWords_def minTraffic_def maxTraffic_def
        initialFilterState_def intentMatch_def anyIntentSelected_def includeMatch_def
        excludeMatch_def)
  then show ?thesis by auto
qed

text \<open>
  C9. With no sort field every pair compares equal and the sorted list is the filtered
  list. With a field, the ascending comparison is the difference of the two records'
  numbers for that field: the difficulty, the cost per click, the traffic potential, or,
  for the volume, the display string parsed with its commas removed and an unparsable
  string taken as 0 ("1,200" against "900" gives 300). That is the number the volume
  filter compares: with one number as minimum and maximum it keeps exactly the records
  sorted under that number. The descending comparison is the negation of the ascending
  one. The sort is stable: the records with any one value of the field are in the order
  of the filtered list. The result is ordered by the comparator and is a permutation of
  the filtered list.
\<close>

theorem sort_comparator:
  "compareKeywords None d a b = 0 \<and>
   sortedKeywords None d xs = xs \<and>
   compareKeywords (Some f) Asc a b = spec_sortValue f a - spec_sortValue f b \<and>
   compareKeywords (Some SortVolume) Asc a b = parseVolume (volume a) - parseVolume (volume b) \<and>
   compareKeywords (Some SortKD) Asc a b = kd a - kd b \<and>
   compareKeywords (Some SortCPC) Asc a b = cpc a - cpc b \<and>
   compareKeywords (Some SortTrafficPotential) Asc a b = trafficPotential a - trafficPotential b \<and>
   compareKeywords (Some SortVolume) Asc (a\<lparr>volume := ''1,200''\<rparr>) (b\<lparr>volume := ''900''\<rparr>) = 300 \<and>
   compareKeywords (Some SortVolume) Desc (a\<lparr>volume := ''1,200''\<rparr>) (b\<lparr>volume := ''900''\<rparr>) = - 300 \<and>
   compareKeywords (Some SortVolume) Asc (a\<lparr>volume := ''n/a''\<rparr>) (b\<lparr>volume := ''1,000,000''\<rparr>) =
     - 1000000 \<and>
   (parseInt s = Fin n \<longrightarrow>
      keepKeyword (initialFilterState\<lparr>minVolume := s, maxVolume := s\<rparr>) a =
      (spec_sortValue SortVolume a = n)) \<and>
   compareKeywords (Some f) Desc a b = - compareKeywords (Some f) Asc a b \<and>
   filter (\<lambda>r. spec_sortValue f r = v) (sortedKeywords (Some f) d xs) =
     filter (\<lambda>r. spec_sortValue f r = v) xs \<and>
   sorted_wrt (\<lambda>a b. compareKeywords sf d a b \<le> 0) (sortedKeywords sf d xs) \<and>
   mset (sortedKeywords sf d xs) = mset xs"
proof -
  have v: "compareKeywords (Some SortVolume) Asc (a\<lparr>volume := ''1,200''\<rparr>) (b\<lparr>volume := ''900''\<rparr>) = 300"
    "compareKeywords (Some SortVolume) Desc (a\<lparr>volume := ''1,200''\<rparr>) (b\<lparr>volume := ''900''\<rparr>) = - 300"
    "compareKeywords (Some SortVolume) Asc (a\<lparr>volume := ''n/a''\<rparr>) (b\<lparr>volume := ''1,000,000''\<rparr>) =
       - 1000000"
    by (simp_all add: compareKeywords_def parseVolume_examples)
  have e: "compareKeywords (Some SortVolume) Asc a b = parseVolume (volume a) - parseVolume (volume b)"
    "compareKeywords (Some SortKD) Asc a b = kd a - kd b"
    "compareKeywords (Some SortCPC) Asc a b = cpc a - cpc b"
    "compareKeywords (Some SortTrafficPotential) Asc a b = trafficPotential a - trafficPotential b"
    by (simp_all add: compareKeywords_def)
  have l: "parseInt s = Fin n \<longrightarrow>
      keepKeyword (initialFilterState\<lparr>minVolume := s, maxVolume := s\<rparr>) a =
      (spec_sortValue SortVolume a = n)"
    using volume_filter_reads_sort_value by blast
  show ?thesis
    by (intro conjI v e l compare_none sorted_none compare_asc compare_desc sorted_stable
        sorted_ordered sorted_mset)
qed

theorem sort_comparator_witness:
  "map keyword (sortedKeywords (Some SortKD) Desc sampleList) = [''b'', ''a'', ''c''] \<and>
   map keyword (filter (\<lambda>r. spec_sortValue SortKD r = 10)
      (sortedKeywords (Some SortKD) Desc sampleList)) = [''a'', ''c''] \<and>
   compareKeywords (Some SortKD) Desc (sampleKeyword\<lparr>kd := 10\<rparr>) (sampleKeyword\<lparr>kd := 15\<rparr>) = 5 \<and>
   compareKeywords (Some SortKD) Asc (sampleKeyword\<lparr>kd := 10\<rparr>) (sampleKeyword\<lparr>kd := 15\<rparr>) = - 5 \<and>
   sortedKeywords None Desc sampleList = sampleList \<and>
   map keyword (sortedKeywords (Some SortVolume) Asc sampleVolumes) = [''c'', ''b'', ''a'', ''d''] \<and>
   map keyword (sortedKeywords (Some SortVolume) Desc sampleVolumes) = [''a'', ''d'', ''b'', ''c''] \<and>
   map keyword (filter (\<lambda>r. spec_sortValue SortVolume r = 1200)
      (sortedKeywords (Some SortVolume) Desc sampleVolumes)) = [''a'', ''d''] \<and>
   parseInt ''1200'' = Fin 1200 \<and>
   keepKeyword (initialFilterState\<lparr>minVolume := ''1200'', maxVolume := ''1200''\<rparr>) sampleKeyword \<and>
   spec_sortValue SortVolume sampleKeyword = 1200"
proof -
  have a: "map keyword (sortedKeywords (Some SortKD) Desc sampleList) = [''b'', ''a'', ''c'']"
    by (simp add: sortedKeywords_def array_sort_def compareKeywords_def sampleList_def)
  have b: "map keyword (filter (\<lambda>r. kd r = 10) sampleList) = [''a'', ''c'']"
    by (simp add: sampleList_def)
  have c: "map keyword (sortedKeywords (Some SortVolume) Asc sampleVolumes) =
             [''c'', ''b'', ''a'', ''d'']"
    "map keyword (sortedKeywords (Some SortVolume) Desc sampleVolumes) =
             [''a'', ''d'', ''b'', ''c'']"
    by (simp_all add: sortedKeywords_def array_sort_def compareKeywords_def sampleVolumes_def
        parseVolume_examples)
  have d: "map keyword (filter (\<lambda>r. parseVolume (volume r) = 1200) sampleVolumes) = [''a'', ''d'']"
    by (simp add: sampleVolumes_def parseVolume_examples)
  have p: "parseInt ''1200'' = Fin 1200" by (rule parse_examples)
  from a c show ?thesis
    using sort_comparator [of Desc "sampleKeyword\<lparr>kd := 10\<rparr>"
        "sampleKeyword\<lparr>kd := 15\<rparr>" sampleList SortKD "''1200''" 1200 10 "Some SortKD"]
      sort_comparator [of Desc sampleKeyword sampleKeyword sampleVolumes
        SortVolume "''1200''" 1200 1200 "Some SortVolume"]
    by (simp add: b d p sampleKeyword_values)
qed

end
